theory Spec2Isabelle
  imports Main
begin

section \<open>Data model (types.ts)\<close>

text \<open>
  Timestamps and durations are JavaScript numbers holding whole milliseconds (hours and
  minutes come from \<^verbatim>\<open>parseInt\<close>); every value the program computes from them is a sum or
  a difference of such integers, so they are modelled as mathematical integers. The
  optional \<open>description\<close> is an option. The field \<open>id\<close> is named \<open>task_id\<close> and \<open>order\<close>
  is named \<open>task_order\<close>, since both names are taken in HOL.
\<close>

datatype Status = Pending | InProgress | Completed

datatype Priority = Low | Medium | High

record Task =
  task_id :: string
  title :: string
  description :: "string option"
  startTime :: int
  endTime :: int
  status :: Status
  priority :: Priority
  categoryId :: string
  task_order :: int
  createdAt :: int

record CompletedTask = Task +
  completedAt :: int

record Category =
  cat_id :: string
  cat_name :: string
  color :: string

record Achievement =
  ach_id :: string
  ach_title :: string
  ach_description :: string
  unlocked :: bool
  icon :: string

section \<open>Current task (App.tsx, DashboardPage.findCurrentTask)\<close>

text \<open>
  \<^verbatim>\<open>tasks.find(t => now >= t.startTime && now <= t.endTime && t.status !== 'completed')\<close>
  followed by \<^verbatim>\<open>setCurrentTaskId(current ? current.id : null)\<close>.
\<close>

definition isCurrentAt :: "int \<Rightarrow> Task \<Rightarrow> bool" where
  "isCurrentAt now t \<longleftrightarrow> now \<ge> startTime t \<and> now \<le> endTime t \<and> status t \<noteq> Completed"

definition findCurrentTask :: "int \<Rightarrow> Task list \<Rightarrow> string option" where
  "findCurrentTask now tasks = map_option task_id (find (isCurrentAt now) tasks)"

section \<open>Setup dialog (SetupModal)\<close>

subsection \<open>Component state\<close>

datatype Mode = Clock | Duration

record SetupState =
  mode :: Mode
  tempTasks :: "Task list"
  editingTask :: "Task option"
  isTaskModalOpen :: bool
  sleepDuration :: int
  workDuration :: int
  durationTaskName :: string
  durationTaskMinutes :: int
  editingDurationTaskId :: "string option"
  previewedTasks :: "Task list option"

subsection \<open>Editing a task (handleSaveTask)\<close>

text \<open>The body of the callback given to \<^verbatim>\<open>previewedTasks.some\<close>.\<close>

definition overlapsExisting :: "Task \<Rightarrow> Task \<Rightarrow> bool" where
  "overlapsExisting task existingTask \<longleftrightarrow>
     task_id existingTask \<noteq> task_id task \<and>
     ((startTime task \<ge> startTime existingTask \<and> startTime task < endTime existingTask) \<or>
      (endTime task > startTime existingTask \<and> endTime task \<le> endTime existingTask) \<or>
      (startTime task \<le> startTime existingTask \<and> endTime task \<ge> endTime existingTask))"

definition overlaps :: "Task \<Rightarrow> Task list \<Rightarrow> bool" where
  "overlaps task previewed = list_ex (overlapsExisting task) previewed"


definition replaceById :: "Task \<Rightarrow> Task list \<Rightarrow> Task list" where
  "replaceById task ts = map (\<lambda>t. if task_id t = task_id task then task else t) ts"

definition closeModal :: "SetupState \<Rightarrow> SetupState" where
  "closeModal st = st\<lparr>isTaskModalOpen := False, editingTask := None\<rparr>"

definition saveTempTask :: "Task \<Rightarrow> SetupState \<Rightarrow> SetupState" where
  "saveTempTask task st =
     (if list_ex (\<lambda>t. task_id t = task_id task) (tempTasks st)
      then st\<lparr>tempTasks := replaceById task (tempTasks st)\<rparr>
      else st\<lparr>tempTasks := tempTasks st @ [task\<lparr>task_order := int (length (tempTasks st))\<rparr>]\<rparr>)"

definition overlapAlert :: string where
  "overlapAlert =
     ''Task times overlap with an existing task in the preview. Please choose different times.''"

text \<open>
  \<^verbatim>\<open>handleSaveTask\<close> returns the text it passes to \<^verbatim>\<open>alert\<close>, if any, and the state after
  the call. \<open>saveTempTask\<close> is its \<^verbatim>\<open>else\<close> branch, taken when there is no preview or the
  task is not in it.
\<close>

definition handleSaveTask :: "Task \<Rightarrow> SetupState \<Rightarrow> string option \<times> SetupState" where
  "handleSaveTask task st =
     (case previewedTasks st of
        Some previewed \<Rightarrow>
          if list_ex (\<lambda>t. task_id t = task_id task) previewed then
            (if overlaps task previewed then (Some overlapAlert, st)
             else (None, closeModal
                     (st\<lparr>previewedTasks :=
                          Some (sort_key startTime (replaceById task previewed))\<rparr>)))
          else (None, closeModal (saveTempTask task st))
      | None \<Rightarrow> (None, closeModal (saveTempTask task st)))"

subsection \<open>Duration tasks (handleAddOrUpdateDurationTask, handleDeleteTask)\<close>

text \<open>
  \<^verbatim>\<open>c.name.toLowerCase()\<close> is modelled on ASCII: the twenty-six capital letters are
  lowered.
\<close>

definition toLowerChar :: "char \<Rightarrow> char" where
  "toLowerChar c =
     (case map_of (zip ''ABCDEFGHIJKLMNOPQRSTUVWXYZ'' ''abcdefghijklmnopqrstuvwxyz'') c of
        Some l \<Rightarrow> l
      | None \<Rightarrow> c)"

definition toLowerCase :: "string \<Rightarrow> string" where
  "toLowerCase s = map toLowerChar s"




subsection \<open>The states of the dialog in duration mode\<close>





subsection \<open>The allocator (scheduleDurationTasks)\<close>

text \<open>
  \<^verbatim>\<open>dayjs\<close> values are their millisecond timestamps: \<^verbatim>\<open>add(n, 'ms')\<close> and
  \<^verbatim>\<open>add(24, 'hour')\<close> add milliseconds, \<^verbatim>\<open>diff(_, 'ms')\<close> subtracts, \<^verbatim>\<open>isBefore\<close> is \<open><\<close>.
  \<open>Allocation\<close> holds the two local variables that \<^verbatim>\<open>allocateTime\<close> mutates.
  \<open>allocateTime_from i\<close> is the \<^verbatim>\<open>for\<close> loop from index \<open>i\<close> on; the task details carry
  a start and an end that the loop overwrites.
\<close>

record FreeSlot =
  slot_start :: int
  slot_end :: int

record Allocation =
  scheduledTasks :: "Task list"
  freeSlots :: "FreeSlot list"

function allocateTime_from :: "nat \<Rightarrow> int \<Rightarrow> Task \<Rightarrow> Allocation \<Rightarrow> bool \<times> Allocation" where
  "allocateTime_from i durationMs taskDetails al =
     (if i < length (freeSlots al) then
        (let slot = freeSlots al ! i;
             slotDuration = slot_end slot - slot_start slot
         in if slotDuration \<ge> durationMs then
              (let taskStartTime = slot_start slot;
                   taskEndTime = taskStartTime + durationMs;
                   pushed = scheduledTasks al
                     @ [taskDetails\<lparr>startTime := taskStartTime, endTime := taskEndTime\<rparr>];
                   remainingSlotStart = taskEndTime
               in if remainingSlotStart < slot_end slot
                  then (True, \<lparr>scheduledTasks = pushed,
                          freeSlots = (freeSlots al)
                            [i := \<lparr>slot_start = remainingSlotStart, slot_end = slot_end slot\<rparr>]\<rparr>)
                  else (True, \<lparr>scheduledTasks = pushed,
                          freeSlots = take i (freeSlots al) @ drop (Suc i) (freeSlots al)\<rparr>))
            else allocateTime_from (Suc i) durationMs taskDetails al)
      else (False, al))"
  by pat_completeness auto
termination
  by (relation "measure (\<lambda>(i, d, t, al). length (freeSlots al) - i)") auto

declare allocateTime_from.simps [simp del]

definition allocateTime :: "int \<Rightarrow> Task \<Rightarrow> Allocation \<Rightarrow> bool \<times> Allocation" where
  "allocateTime durationMs taskDetails al = allocateTime_from 0 durationMs taskDetails al"

text \<open>
  \<^verbatim>\<open>categories.find(c => c.name.toLowerCase() === ft.category)?.id || categories[0].id\<close>:
  an empty id is falsy, and reading \<^verbatim>\<open>categories[0].id\<close> of an empty list throws a
  \<^verbatim>\<open>TypeError\<close>, which leaves \<^verbatim>\<open>scheduleDurationTasks\<close>.
\<close>

datatype error = TypeError

definition fixedCategoryId :: "Category list \<Rightarrow> string \<Rightarrow> error + string" where
  "fixedCategoryId categories cat =
     (let first = (case categories of [] \<Rightarrow> Inl TypeError | c # _ \<Rightarrow> Inr (cat_id c))
      in case find (\<lambda>c. toLowerCase (cat_name c) = cat) categories of
           Some c \<Rightarrow> if cat_id c \<noteq> [] then Inr (cat_id c) else first
         | None \<Rightarrow> first)"

text \<open>
  An entry of \<^verbatim>\<open>fixedTasks\<close>, together with what \<^verbatim>\<open>crypto.randomUUID()\<close> and
  \<^verbatim>\<open>Date.now()\<close> return when the entry is processed (\<open>ft_uuid\<close>, \<open>ft_now\<close>).
\<close>

record FixedTask =
  ft_title :: string
  durationHours :: int
  category :: string
  ft_priority :: Priority
  ft_uuid :: string
  ft_now :: int

definition fixedDetails :: "FixedTask \<Rightarrow> string \<Rightarrow> Task" where
  "fixedDetails ft cid =
     \<lparr>task_id = ft_uuid ft, title = ft_title ft, description = None,
      startTime = 0, endTime = 0, status = Pending,
      priority = ft_priority ft, categoryId = cid, task_order = 0,
      createdAt = ft_now ft\<rparr>"

definition allocateFixed :: "Category list \<Rightarrow> FixedTask \<Rightarrow> Allocation \<Rightarrow> error + Allocation" where
  "allocateFixed categories ft al =
     (if durationHours ft \<le> 0 then Inr al
      else case fixedCategoryId categories (category ft) of
             Inl e \<Rightarrow> Inl e
           | Inr cid \<Rightarrow>
               Inr (snd (allocateTime (durationHours ft * 60 * 60 * 1000)
                           (fixedDetails ft cid) al)))"

fun forEachFixed :: "Category list \<Rightarrow> FixedTask list \<Rightarrow> Allocation \<Rightarrow> error + Allocation" where
  "forEachFixed categories [] al = Inr al"
| "forEachFixed categories (ft # fts) al =
     (case allocateFixed categories ft al of
        Inl e \<Rightarrow> Inl e
      | Inr al' \<Rightarrow> forEachFixed categories fts al')"

fun forEachUser :: "Task list \<Rightarrow> Allocation \<Rightarrow> Allocation" where
  "forEachUser [] al = al"
| "forEachUser (dt # dts) al = forEachUser dts (snd (allocateTime (endTime dt) dt al))"

fun withOrder :: "nat \<Rightarrow> Task list \<Rightarrow> Task list" where
  "withOrder index [] = []"
| "withOrder index (t # ts) = t\<lparr>task_order := int index\<rparr> # withOrder (Suc index) ts"

definition dayMs :: int where
  "dayMs = 24 * 60 * 60 * 1000"

definition initialAllocation :: "int \<Rightarrow> Allocation" where
  "initialAllocation today =
     \<lparr>scheduledTasks = [], freeSlots = [\<lparr>slot_start = today, slot_end = today + dayMs\<rparr>]\<rparr>"

text \<open>
  The body of \<^verbatim>\<open>scheduleDurationTasks\<close> for a given list of fixed commitments: the
  commitments in order, then the duration tasks, longest first (both sorts are stable),
  then the result sorted by start and ranked.
\<close>

definition scheduleWith ::
  "int \<Rightarrow> Category list \<Rightarrow> FixedTask list \<Rightarrow> Task list \<Rightarrow> error + Task list" where
  "scheduleWith today categories fts dts =
     (case forEachFixed categories fts (initialAllocation today) of
        Inl e \<Rightarrow> Inl e
      | Inr al \<Rightarrow>
          (let userDurationTasks = sort_key (\<lambda>t. - endTime t) dts;
               al' = forEachUser userDurationTasks al
           in Inr (withOrder 0 (sort_key startTime (scheduledTasks al')))))"

text \<open>The identifiers and clock readings drawn for the two commitments.\<close>

record Draws =
  sleepUuid :: string
  sleepNow :: int
  workUuid :: string
  workNow :: int

definition sleepingTime :: "Draws \<Rightarrow> int \<Rightarrow> FixedTask" where
  "sleepingTime dr hours =
     \<lparr>ft_title = ''Sleeping Time'', durationHours = hours, category = ''rest'',
      ft_priority = Low, ft_uuid = sleepUuid dr, ft_now = sleepNow dr\<rparr>"

definition workSchoolTime :: "Draws \<Rightarrow> int \<Rightarrow> FixedTask" where
  "workSchoolTime dr hours =
     \<lparr>ft_title = ''Work/School Time'', durationHours = hours, category = ''work'',
      ft_priority = High, ft_uuid = workUuid dr, ft_now = workNow dr\<rparr>"

definition fixedTasks :: "Draws \<Rightarrow> int \<Rightarrow> int \<Rightarrow> FixedTask list" where
  "fixedTasks dr sleepHours workHours =
     [sleepingTime dr sleepHours, workSchoolTime dr workHours]"

text \<open>
  \<^verbatim>\<open>scheduleDurationTasks\<close> reads \<^verbatim>\<open>sleepDuration\<close>, \<^verbatim>\<open>workDuration\<close> and \<^verbatim>\<open>tempTasks\<close>
  from the component state; \<open>today\<close> is \<^verbatim>\<open>dayjs().startOf('day')\<close>.
\<close>

definition scheduleDurationTasks ::
  "int \<Rightarrow> Draws \<Rightarrow> Category list \<Rightarrow> SetupState \<Rightarrow> error + Task list" where
  "scheduleDurationTasks today dr categories st =
     scheduleWith today categories
       (fixedTasks dr (sleepDuration st) (workDuration st)) (tempTasks st)"

section \<open>Task list (TaskItem.handleStatusChange) and history (DataProvider.addCompletedTask)\<close>

text \<open>The task that \<^verbatim>\<open>handleStatusChange\<close> hands to \<^verbatim>\<open>onUpdate\<close>.\<close>

definition handleStatusChange :: "Task \<Rightarrow> Task" where
  "handleStatusChange task =
     task\<lparr>status := (if status task = Completed then Pending else Completed)\<rparr>"

text \<open>
  The provider's state: the \<^verbatim>\<open>history\<close> and \<^verbatim>\<open>achievements\<close> it holds in memory, and the
  two object stores of the database that \<^verbatim>\<open>addCompletedTask\<close> writes, keyed by id.
  \<open>now\<close> is \<^verbatim>\<open>Date.now()\<close> and \<open>hour\<close> is \<^verbatim>\<open>dayjs().hour()\<close>.

  \<^verbatim>\<open>addCompletedTask\<close> is created anew at every render of the provider and closes over the
  \<^verbatim>\<open>history\<close> of that render: \<open>seen\<close> is that captured array. The guard
  \<^verbatim>\<open>history.some(h => h.id === task.id)\<close> tests \<open>seen\<close>, while
  \<^verbatim>\<open>setHistory(prev => [...prev, completedTask])\<close> appends to the history of the state. The
  achievement objects are the same in every render's array and are changed in place, so their
  fields are read from the state.
\<close>

record DataState =
  history :: "CompletedTask list"
  historyStore :: "string \<rightharpoonup> CompletedTask"
  achievements :: "Achievement list"
  achievementStore :: "string \<rightharpoonup> Achievement"

definition completedRecord :: "Task \<Rightarrow> int \<Rightarrow> CompletedTask" where
  "completedRecord task now =
     \<lparr>task_id = task_id task, title = title task, description = description task,
      startTime = startTime task, endTime = endTime task, status = Completed,
      priority = priority task, categoryId = categoryId task, task_order = task_order task,
      createdAt = createdAt task, completedAt = now\<rparr>"

fun unlockEarlyRiser :: "Achievement list \<Rightarrow> Achievement list" where
  "unlockEarlyRiser [] = []"
| "unlockEarlyRiser (a # as) =
     (if ach_id a = ''early-riser'' then a\<lparr>unlocked := True\<rparr> # as
      else a # unlockEarlyRiser as)"

definition addCompletedTask ::
  "CompletedTask list \<Rightarrow> Task \<Rightarrow> int \<Rightarrow> int \<Rightarrow> DataState \<Rightarrow> DataState" where
  "addCompletedTask seen task now hour st =
     (if list_ex (\<lambda>h. task_id h = task_id task) seen then st
      else
        (let completedTask = completedRecord task now;
             st1 = st\<lparr>history := history st @ [completedTask],
                      historyStore := (historyStore st)(task_id task \<mapsto> completedTask)\<rparr>
         in case find (\<lambda>a. ach_id a = ''early-riser'') (achievements st1) of
              Some earlyRiser \<Rightarrow>
                if \<not> unlocked earlyRiser \<and> hour < 8
                then (let updatedAchievements = unlockEarlyRiser (achievements st1)
                      in st1\<lparr>achievements := updatedAchievements,
                             achievementStore :=
                               fold (\<lambda>a m. m(ach_id a \<mapsto> a)) updatedAchievements
                                 (achievementStore st1)\<rparr>)
                else st1
            | None \<Rightarrow> st1))"

text \<open>
  A run of calls of \<^verbatim>\<open>addCompletedTask\<close>, each with its task and its clock readings, and
  each made through the closure of a render that follows the previous call: the history it
  has captured is the history of the state.
\<close>

fun freshCompletions :: "(Task \<times> int \<times> int) list \<Rightarrow> DataState \<Rightarrow> DataState" where
  "freshCompletions [] st = st"
| "freshCompletions ((task, now, hour) # calls) st =
     freshCompletions calls (addCompletedTask (history st) task now hour st)"

text \<open>
  A run of calls all made through the closure of one render, which has captured \<open>seen\<close>.
\<close>

fun staleCompletions ::
  "CompletedTask list \<Rightarrow> (Task \<times> int \<times> int) list \<Rightarrow> DataState \<Rightarrow> DataState" where
  "staleCompletions seen [] st = st"
| "staleCompletions seen ((task, now, hour) # calls) st =
     staleCompletions seen calls (addCompletedTask seen task now hour st)"

section \<open>Reminder scheduler (notificationService)\<close>

text \<open>
  The browser's timers are a list of live timeouts, each with the handle \<^verbatim>\<open>setTimeout\<close>
  returned, its delay and its callback; handles are handed out in increasing order. A
  callback closes over the task given to \<^verbatim>\<open>scheduleTaskNotifications\<close>.
  \<open>scheduledNotifications\<close> is the module's map of that name. \<open>now\<close> is \<^verbatim>\<open>Date.now()\<close>.
\<close>

record Notification =
  n_title :: string
  n_body :: string
  n_icon :: string
  n_tag :: string

datatype TimerCallback = StartCallback Task | EndCallback Task

fun callbackTask :: "TimerCallback \<Rightarrow> Task" where
  "callbackTask (StartCallback task) = task"
| "callbackTask (EndCallback task) = task"

record Timeout =
  handle :: nat
  delay :: int
  callback :: TimerCallback

record NotificationState =
  timeouts :: "Timeout list"
  nextHandle :: nat
  scheduledNotifications :: "string \<rightharpoonup> nat list"

definition setTimeout :: "TimerCallback \<Rightarrow> int \<Rightarrow> NotificationState \<Rightarrow> nat \<times> NotificationState" where
  "setTimeout cb ms st =
     (nextHandle st,
      st\<lparr>timeouts := timeouts st @ [\<lparr>handle = nextHandle st, delay = ms, callback = cb\<rparr>],
         nextHandle := Suc (nextHandle st)\<rparr>)"

definition clearTimeout :: "nat \<Rightarrow> NotificationState \<Rightarrow> NotificationState" where
  "clearTimeout timeoutId st = st\<lparr>timeouts := filter (\<lambda>t. handle t \<noteq> timeoutId) (timeouts st)\<rparr>"

definition cancelTaskNotifications :: "string \<Rightarrow> NotificationState \<Rightarrow> NotificationState" where
  "cancelTaskNotifications taskId st =
     (case scheduledNotifications st taskId of
        Some ids \<Rightarrow>
          (fold clearTimeout ids st)
            \<lparr>scheduledNotifications := (scheduledNotifications st)(taskId := None)\<rparr>
      | None \<Rightarrow> st)"

definition scheduleTaskNotifications :: "Task \<Rightarrow> int \<Rightarrow> NotificationState \<Rightarrow> NotificationState" where
  "scheduleTaskNotifications task now st =
     (let st0 = cancelTaskNotifications (task_id task) st
      in if status task = Completed then st0
         else
           (let (ids1, st1) =
                  (if startTime task > now
                   then (let (startTimeoutId, s) =
                               setTimeout (StartCallback task) (startTime task - now) st0
                         in ([startTimeoutId], s))
                   else ([], st0));
                (ids2, st2) =
                  (if endTime task > now
                   then (let (endTimeoutId, s) =
                               setTimeout (EndCallback task) (endTime task - now) st1
                         in (ids1 @ [endTimeoutId], s))
                   else (ids1, st1))
            in if length ids2 > 0
               then st2\<lparr>scheduledNotifications := (scheduledNotifications st2)(task_id task \<mapsto> ids2)\<rparr>
               else st2))"

text \<open>The live timeouts whose callback was created for the task with the given id.\<close>

definition liveTimers :: "string \<Rightarrow> NotificationState \<Rightarrow> Timeout list" where
  "liveTimers taskId st = filter (\<lambda>t. task_id (callbackTask (callback t)) = taskId) (timeouts st)"

text \<open>
  The title and options that the callbacks pass to \<^verbatim>\<open>showNotification\<close>, which shows them
  when the notification permission is granted and does nothing otherwise. The end callback
  first reads the task again, \<^verbatim>\<open>await db.get('tasks', task.id)\<close>; \<open>db\<close> is the \<^verbatim>\<open>tasks\<close>
  store at that moment, and a task that is not stored counts as not completed
  (\<^verbatim>\<open>currentTask?.status !== 'completed'\<close>).
\<close>

definition startedNotification :: "Task \<Rightarrow> Notification" where
  \<open>startedNotification task =
     \<lparr>n_title = ''Task Started: '' @ title task,
      n_body = ''It's time to begin "'' @ title task @ ''". You can do it!'',
      n_icon = ''/icons/icon-192x192.png'',
      n_tag = ''task-start-'' @ task_id task\<rparr>\<close>

definition overdueNotification :: "Task \<Rightarrow> Notification" where
  \<open>overdueNotification task =
     \<lparr>n_title = ''Task Overdue: '' @ title task,
      n_body = ''Your task "'' @ title task @ ''" was due. Don't forget to complete it!'',
      n_icon = ''/icons/icon-192x192.png'',
      n_tag = ''task-end-'' @ task_id task\<rparr>\<close>

definition endedNotification :: "Task \<Rightarrow> Notification" where
  \<open>endedNotification task =
     \<lparr>n_title = ''Task Ended: '' @ title task,
      n_body = ''Time's up for "'' @ title task @ ''". Hope you finished it!'',
      n_icon = ''/icons/icon-192x192.png'',
      n_tag = ''task-end-'' @ task_id task\<rparr>\<close>

definition showNotification :: "bool \<Rightarrow> Notification \<Rightarrow> Notification list" where
  "showNotification granted n = (if granted then [n] else [])"

fun runCallback :: "bool \<Rightarrow> (string \<rightharpoonup> Task) \<Rightarrow> TimerCallback \<Rightarrow> Notification list" where
  "runCallback granted db (StartCallback task) = showNotification granted (startedNotification task)"
| "runCallback granted db (EndCallback task) =
     (let currentTask = db (task_id task)
      in if map_option status currentTask \<noteq> Some Completed
         then showNotification granted (overdueNotification task)
         else showNotification granted (endedNotification task))"

text \<open>
  The browser fires the live timeout with handle \<open>h\<close>: its callback runs and the timeout is
  gone. The result is the list of notifications shown.
\<close>

definition fireTimeout ::
  "nat \<Rightarrow> bool \<Rightarrow> (string \<rightharpoonup> Task) \<Rightarrow> NotificationState \<Rightarrow> Notification list \<times> NotificationState" where
  "fireTimeout h granted db st =
     (case find (\<lambda>t. handle t = h) (timeouts st) of
        None \<Rightarrow> ([], st)
      | Some t \<Rightarrow> (runCallback granted db (callback t), clearTimeout h st))"

text \<open>The state when the module is loaded: no timeout, an empty map.\<close>

definition initialNotificationState :: NotificationState where
  "initialNotificationState =
     \<lparr>timeouts = [], nextHandle = 1, scheduledNotifications = Map.empty\<rparr>"

section \<open>Invariants\<close>


text \<open>
  \<open>tracked taskId st\<close>: every live timeout of the task is listed under its id in
  \<open>scheduledNotifications\<close>. \<open>freshHandles st\<close>: every live timeout has a handle below the
  next one to be handed out.
\<close>

definition tracked :: "string \<Rightarrow> NotificationState \<Rightarrow> bool" where
  "tracked taskId st \<longleftrightarrow>
     (\<forall>t \<in> set (liveTimers taskId st).
        case scheduledNotifications st taskId of
          Some ids \<Rightarrow> handle t \<in> set ids
        | None \<Rightarrow> False)"

definition freshHandles :: "NotificationState \<Rightarrow> bool" where
  "freshHandles st \<longleftrightarrow> (\<forall>t \<in> set (timeouts st). handle t < nextHandle st)"


section \<open>Example inputs\<close>

text \<open>\<open>defaultCategories\<close> is the list of that name in App.tsx.\<close>

definition defaultCategories :: "Category list" where
  "defaultCategories =
     [\<lparr>cat_id = ''work'', cat_name = ''Work'', color = ''#ef4444''\<rparr>,
      \<lparr>cat_id = ''study'', cat_name = ''Study'', color = ''#3b82f6''\<rparr>,
      \<lparr>cat_id = ''exercise'', cat_name = ''Exercise'', color = ''#22c55e''\<rparr>,
      \<lparr>cat_id = ''gaming'', cat_name = ''Gaming'', color = ''#8b5cf6''\<rparr>,
      \<lparr>cat_id = ''rest'', cat_name = ''Rest'', color = ''#64748b''\<rparr>]"

definition exampleDraws :: Draws where
  "exampleDraws = \<lparr>sleepUuid = ''s'', sleepNow = 5, workUuid = ''w'', workNow = 6\<rparr>"

definition durationTask :: "string \<Rightarrow> int \<Rightarrow> Task" where
  "durationTask name minutes =
     \<lparr>task_id = name, title = name, description = Some ''Duration-based task'',
      startTime = 0, endTime = minutes * 60 * 1000, status = Pending, priority = Medium,
      categoryId = ''study'', task_order = 0, createdAt = 0\<rparr>"

definition timedTask :: "string \<Rightarrow> int \<Rightarrow> int \<Rightarrow> Status \<Rightarrow> Task" where
  "timedTask name start finish st =
     \<lparr>task_id = name, title = name, description = None, startTime = start, endTime = finish,
      status = st, priority = Medium, categoryId = ''study'', task_order = 0, createdAt = 0\<rparr>"

definition sleepTask :: "int \<Rightarrow> int \<Rightarrow> int \<Rightarrow> Task" where
  "sleepTask start finish rank =
     \<lparr>task_id = ''s'', title = ''Sleeping Time'', description = None, startTime = start,
      endTime = finish, status = Pending, priority = Low, categoryId = ''rest'',
      task_order = rank, createdAt = 5\<rparr>"

definition workTask :: "int \<Rightarrow> int \<Rightarrow> int \<Rightarrow> Task" where
  "workTask start finish rank =
     \<lparr>task_id = ''w'', title = ''Work/School Time'', description = None, startTime = start,
      endTime = finish, status = Pending, priority = High, categoryId = ''work'',
      task_order = rank, createdAt = 6\<rparr>"

text \<open>The dialog in duration mode with the given durations and duration tasks.\<close>

definition durationSetup :: "int \<Rightarrow> int \<Rightarrow> Task list \<Rightarrow> SetupState" where
  "durationSetup sleepHours workHours dts =
     \<lparr>mode = Duration, tempTasks = dts, editingTask = None, isTaskModalOpen = False,
      sleepDuration = sleepHours, workDuration = workHours, durationTaskName = [],
      durationTaskMinutes = 30, editingDurationTaskId = None, previewedTasks = None\<rparr>"


definition emptyData :: DataState where
  "emptyData =
     \<lparr>history = [], historyStore = Map.empty, achievements = [],
      achievementStore = Map.empty\<rparr>"


section \<open>Lemmas and theorems\<close>

section \<open>The allocator\<close>

subsection \<open>One call of allocateTime\<close>

lemma allocateTime_from_end:
  "\<not> i < length (freeSlots al) \<Longrightarrow> allocateTime_from i d details al = (False, al)"
  by (simp add: allocateTime_from.simps[of i])

lemma allocateTime_from_skip:
  "i < length (freeSlots al) \<Longrightarrow>
   \<not> d \<le> slot_end (freeSlots al ! i) - slot_start (freeSlots al ! i) \<Longrightarrow>
   allocateTime_from i d details al = allocateTime_from (Suc i) d details al"
  by (simp add: allocateTime_from.simps[of i] Let_def)

lemma allocateTime_from_fit:
  "i < length (freeSlots al) \<Longrightarrow>
   d \<le> slot_end (freeSlots al ! i) - slot_start (freeSlots al ! i) \<Longrightarrow>
   allocateTime_from i d details al =
     (True, \<lparr>scheduledTasks = scheduledTasks al
               @ [details\<lparr>startTime := slot_start (freeSlots al ! i),
                          endTime := slot_start (freeSlots al ! i) + d\<rparr>],
            freeSlots =
              (if slot_start (freeSlots al ! i) + d < slot_end (freeSlots al ! i)
               then (freeSlots al)[i := \<lparr>slot_start = slot_start (freeSlots al ! i) + d,
                                        slot_end = slot_end (freeSlots al ! i)\<rparr>]
               else take i (freeSlots al) @ drop (Suc i) (freeSlots al))\<rparr>)"
  by (simp add: allocateTime_from.simps[of i] Let_def)

lemma allocateTime_no_slots:
  "freeSlots al = [] \<Longrightarrow> allocateTime d details al = (False, al)"
  by (simp add: allocateTime_def allocateTime_from_end)

lemma allocateTime_one_slot:
  "freeSlots al = [s] \<Longrightarrow>
   allocateTime d details al =
     (if slot_end s - slot_start s \<ge> d
      then (True, \<lparr>scheduledTasks = scheduledTasks al
                      @ [details\<lparr>startTime := slot_start s, endTime := slot_start s + d\<rparr>],
                   freeSlots = (if slot_start s + d < slot_end s
                                then [\<lparr>slot_start = slot_start s + d, slot_end = slot_end s\<rparr>]
                                else [])\<rparr>)
      else (False, al))"
  by (simp add: allocateTime_def allocateTime_from_fit allocateTime_from_skip
      allocateTime_from_end)

subsection \<open>The packing invariant\<close>






subsection \<open>Sorting and ranking the result\<close>

lemma length_withOrder [simp]: "length (withOrder n ts) = length ts"
  by (induction ts arbitrary: n) auto






subsection \<open>The lengths of the duration tasks\<close>









subsection \<open>No overlap, containment\<close>





subsection \<open>Items that do not fit\<close>

lemma allocateTime_from_no_fit:
  "\<forall>k. i \<le> k \<and> k < length (freeSlots al) \<longrightarrow>
        slot_end (freeSlots al ! k) - slot_start (freeSlots al ! k) < d \<Longrightarrow>
   allocateTime_from i d details al = (False, al)"
proof (induction i d details al rule: allocateTime_from.induct)
  case (1 i d details al)
  show ?case
  proof (cases "i < length (freeSlots al)")
    case False
    then show ?thesis by (simp add: allocateTime_from_end)
  next
    case True
    with "1.prems" have small: "slot_end (freeSlots al ! i) - slot_start (freeSlots al ! i) < d"
      by simp
    then have "\<not> d \<le> slot_end (freeSlots al ! i) - slot_start (freeSlots al ! i)" by simp
    moreover from "1.IH"[OF True refl refl this] "1.prems"
    have "allocateTime_from (Suc i) d details al = (False, al)" by simp
    ultimately show ?thesis using True
      by (simp add: allocateTime_from_skip)
  qed
qed

lemma allocateTime_no_fit:
  "\<forall>s \<in> set (freeSlots al). slot_end s - slot_start s < d \<Longrightarrow>
   allocateTime d details al = (False, al)"
  unfolding allocateTime_def by (rule allocateTime_from_no_fit) simp

lemma allocateTime_from_pushes:
  "scheduledTasks (snd (allocateTime_from i d details al)) = scheduledTasks al \<or>
   (\<exists>s e. scheduledTasks (snd (allocateTime_from i d details al))
            = scheduledTasks al @ [details\<lparr>startTime := s, endTime := e\<rparr>])"
proof (induction i d details al rule: allocateTime_from.induct)
  case (1 i d details al)
  show ?case
  proof (cases "i < length (freeSlots al)")
    case False
    then show ?thesis by (simp add: allocateTime_from_end)
  next
    case True
    show ?thesis
    proof (cases "d \<le> slot_end (freeSlots al ! i) - slot_start (freeSlots al ! i)")
      case True
      with \<open>i < length (freeSlots al)\<close> show ?thesis
        by (simp add: allocateTime_from_fit) blast
    next
      case False
      with "1.IH"[OF True refl refl] True show ?thesis
        by (simp add: allocateTime_from_skip)
    qed
  qed
qed

lemma allocateTime_ids:
  "task_id ` set (scheduledTasks (snd (allocateTime d details al)))
     \<subseteq> insert (task_id details) (task_id ` set (scheduledTasks al))"
  using allocateTime_from_pushes[of 0 d details al] unfolding allocateTime_def by auto

lemma forEachUser_ids:
  "task_id ` set (scheduledTasks (forEachUser dts al))
     \<subseteq> task_id ` set (scheduledTasks al) \<union> task_id ` set dts"
proof (induction dts arbitrary: al)
  case Nil
  show ?case by simp
next
  case (Cons dt dts)
  from Cons.IH[of "snd (allocateTime (endTime dt) dt al)"] allocateTime_ids[of "endTime dt" dt al]
  show ?case by auto
qed

lemma allocateFixed_ids:
  assumes "allocateFixed categories ft al = Inr al'"
  shows "task_id ` set (scheduledTasks al')
           \<subseteq> insert (ft_uuid ft) (task_id ` set (scheduledTasks al))"
proof (cases "durationHours ft \<le> 0")
  case True
  with assms show ?thesis by (auto simp: allocateFixed_def)
next
  case False
  with assms obtain cid where
    al': "al' = snd (allocateTime (durationHours ft * 60 * 60 * 1000) (fixedDetails ft cid) al)"
    by (auto simp: allocateFixed_def split: sum.splits)
  have "task_id (fixedDetails ft cid) = ft_uuid ft" by (simp add: fixedDetails_def)
  with allocateTime_ids[of "durationHours ft * 60 * 60 * 1000" "fixedDetails ft cid" al]
  show ?thesis unfolding al' by simp
qed

lemma forEachFixed_ids:
  "forEachFixed categories fts al = Inr al' \<Longrightarrow>
   task_id ` set (scheduledTasks al') \<subseteq> task_id ` set (scheduledTasks al) \<union> ft_uuid ` set fts"
proof (induction fts arbitrary: al)
  case Nil
  then show ?case by auto
next
  case (Cons ft fts)
  from Cons.prems obtain al1 where
    step: "allocateFixed categories ft al = Inr al1" and rest: "forEachFixed categories fts al1 = Inr al'"
    by (auto split: sum.splits)
  from Cons.IH[OF rest] allocateFixed_ids[OF step] show ?case by auto
qed

lemma map_task_id_withOrder [simp]: "map task_id (withOrder n ts) = map task_id ts"
  by (induction ts arbitrary: n) auto

lemma scheduleWith_ids:
  assumes "scheduleWith today categories fts dts = Inr out"
  shows "task_id ` set out \<subseteq> ft_uuid ` set fts \<union> task_id ` set dts"
proof -
  from assms obtain al where
    fixed: "forEachFixed categories fts (initialAllocation today) = Inr al"
    and out: "out = withOrder 0 (sort_key startTime
                (scheduledTasks (forEachUser (sort_key (\<lambda>t. - endTime t) dts) al)))"
    by (auto simp: scheduleWith_def Let_def split: sum.splits)
  have "task_id ` set out = set (map task_id out)" by simp
  also have "\<dots> = task_id ` set (scheduledTasks (forEachUser (sort_key (\<lambda>t. - endTime t) dts) al))"
    unfolding out map_task_id_withOrder by simp
  also have "\<dots> \<subseteq> task_id ` set (scheduledTasks al) \<union> task_id ` set dts"
    using forEachUser_ids[of "sort_key (\<lambda>t. - endTime t) dts" al] by simp
  also have "\<dots> \<subseteq> ft_uuid ` set fts \<union> task_id ` set dts"
    using forEachFixed_ids[OF fixed] by (auto simp: initialAllocation_def)
  finally show ?thesis .
qed


lemma forEachFixed_append:
  "forEachFixed categories (xs @ ys) al =
     (case forEachFixed categories xs al of
        Inl e \<Rightarrow> Inl e
      | Inr al' \<Rightarrow> forEachFixed categories ys al')"
  by (induction xs arbitrary: al) (auto split: sum.splits)

lemma forEachUser_no_slots: "freeSlots al = [] \<Longrightarrow> forEachUser dts al = al"
  by (induction dts) (auto simp: allocateTime_no_slots)


text \<open>
  With no sleep and 24 hours of work, the work fills the day and no duration task is placed,
  whatever its length.
\<close>

lemma work_fills_day:
  assumes "sleepDuration st \<le> 0" and "workDuration st = 24"
    and "fixedCategoryId categories ''work'' = Inr cid"
  shows "scheduleDurationTasks today dr categories st =
         Inr [\<lparr>task_id = workUuid dr, title = ''Work/School Time'', description = None,
               startTime = today, endTime = today + 24 * 60 * 60 * 1000, status = Pending,
               priority = High, categoryId = cid, task_order = 0, createdAt = workNow dr\<rparr>]"
  using assms
  by (simp add: scheduleDurationTasks_def scheduleWith_def fixedTasks_def allocateFixed_def
      sleepingTime_def workSchoolTime_def initialAllocation_def allocateTime_one_slot dayMs_def
      forEachUser_no_slots fixedDetails_def)

text \<open>
  Let \<open>al\<close> be the allocation reached when the commitment \<open>ft\<close> is processed. If the
  duration of \<open>ft\<close> is not positive, or if its category lookup returns and no free slot of
  \<open>al\<close> is long enough for it, then processing \<open>ft\<close> returns \<open>al\<close> unchanged and without
  error, the allocator's result is the one it gives for the same input without \<open>ft\<close>, and
  no task of the output carries the identifier of \<open>ft\<close>.
\<close>

lemma infeasible_commitment_dropped:
  assumes "forEachFixed categories before (initialAllocation today) = Inr al"
    and "durationHours ft \<le> 0 \<or>
         (fixedCategoryId categories (category ft) = Inr cid \<and>
          (\<forall>s \<in> set (freeSlots al).
             slot_end s - slot_start s < durationHours ft * 60 * 60 * 1000))"
  shows "allocateFixed categories ft al = Inr al \<and>
         scheduleWith today categories (before @ ft # after) dts
           = scheduleWith today categories (before @ after) dts \<and>
         (ft_uuid ft \<notin> ft_uuid ` set (before @ after) \<and> ft_uuid ft \<notin> task_id ` set dts \<longrightarrow>
            (\<forall>out. scheduleWith today categories (before @ ft # after) dts = Inr out \<longrightarrow>
                   ft_uuid ft \<notin> task_id ` set out))"
proof -
  have step: "allocateFixed categories ft al = Inr al"
  proof (cases "durationHours ft \<le> 0")
    case True
    then show ?thesis by (simp add: allocateFixed_def)
  next
    case False
    with assms(2) show ?thesis
      by (simp add: allocateFixed_def allocateTime_no_fit)
  qed
  have same: "scheduleWith today categories (before @ ft # after) dts
                = scheduleWith today categories (before @ after) dts"
    using assms(1) step by (simp add: scheduleWith_def forEachFixed_append)
  have "ft_uuid ft \<notin> task_id ` set out"
    if "ft_uuid ft \<notin> ft_uuid ` set (before @ after)" "ft_uuid ft \<notin> task_id ` set dts"
      "scheduleWith today categories (before @ ft # after) dts = Inr out" for out
  proof -
    from that(3) same have "scheduleWith today categories (before @ after) dts = Inr out"
      by simp
    from scheduleWith_ids[OF this] that(1,2) show ?thesis by blast
  qed
  with step same show ?thesis by blast
qed


text \<open>
  Twenty-four hours of sleep leave no slot for eight hours of work; and with no sleep and
  24 hours of work, the sleep is skipped and the ninety minutes of study are not placed.
\<close>

lemma infeasible_commitment_dropped_examples:
  "scheduleWith 0 defaultCategories
     [sleepingTime exampleDraws 24, workSchoolTime exampleDraws 8] [durationTask ''Study'' 90]
     = scheduleWith 0 defaultCategories
         [sleepingTime exampleDraws 24] [durationTask ''Study'' 90] \<and>
   scheduleWith 0 defaultCategories
     [sleepingTime exampleDraws 0, workSchoolTime exampleDraws 24] [durationTask ''Study'' 90]
     = scheduleWith 0 defaultCategories
         [workSchoolTime exampleDraws 24] [durationTask ''Study'' 90] \<and>
   scheduleWith 0 defaultCategories
     [workSchoolTime exampleDraws 24] [durationTask ''Study'' 90] = Inr [workTask 0 86400000 0]"
proof -
  have full: "forEachFixed defaultCategories [sleepingTime exampleDraws 24] (initialAllocation 0)
                = Inr \<lparr>scheduledTasks = [sleepTask 0 86400000 0], freeSlots = []\<rparr>"
    by code_simp
  have cat: "fixedCategoryId defaultCategories (category (workSchoolTime exampleDraws 8)) = Inr ''work''"
    by code_simp
  have noslot: "durationHours (workSchoolTime exampleDraws 8) \<le> 0 \<or>
      (fixedCategoryId defaultCategories (category (workSchoolTime exampleDraws 8)) = Inr ''work'' \<and>
       (\<forall>s \<in> set (freeSlots \<lparr>scheduledTasks = [sleepTask 0 86400000 0], freeSlots = []\<rparr>).
          slot_end s - slot_start s < durationHours (workSchoolTime exampleDraws 8) * 60 * 60 * 1000))"
    using cat by simp
  have start: "forEachFixed defaultCategories [] (initialAllocation 0) = Inr (initialAllocation 0)"
    by simp
  have skip: "durationHours (sleepingTime exampleDraws 0) \<le> 0 \<or>
      (fixedCategoryId defaultCategories (category (sleepingTime exampleDraws 0)) = Inr ''rest'' \<and>
       (\<forall>s \<in> set (freeSlots (initialAllocation 0)).
          slot_end s - slot_start s < durationHours (sleepingTime exampleDraws 0) * 60 * 60 * 1000))"
    by (simp add: sleepingTime_def)
  have work: "scheduleWith 0 defaultCategories
     [workSchoolTime exampleDraws 24] [durationTask ''Study'' 90] = Inr [workTask 0 86400000 0]"
    by code_simp
  from infeasible_commitment_dropped[OF full noslot,
        where after = "[]" and dts = "[durationTask ''Study'' 90]"]
    infeasible_commitment_dropped[OF start skip,
        where after = "[workSchoolTime exampleDraws 24]" and dts = "[durationTask ''Study'' 90]"]
    work
  show ?thesis by simp
qed

text \<open>
  C9. The claim says that a commitment for which no free slot is long enough is left out
  while the remaining commitments and tasks are allocated, and that no error aborts the
  allocation. Twenty-five hours of sleep fit no slot of the day. With the default categories
  the sleep is left out and the eight hours of work and the ninety minutes of study are
  placed. With an empty list of categories, reading \<^verbatim>\<open>categories[0].id\<close> for the sleep
  throws before \<^verbatim>\<open>allocateTime\<close> is called: the allocator returns nothing, and neither the
  work nor the study is allocated.
\<close>

theorem empty_categories_abort_allocation:
  "scheduleDurationTasks 0 exampleDraws []
     (durationSetup 25 8 [durationTask ''Study'' 90]) = Inl TypeError \<and>
   scheduleDurationTasks 0 exampleDraws defaultCategories
     (durationSetup 25 8 [durationTask ''Study'' 90])
     = Inr [workTask 0 28800000 0,
            (durationTask ''Study'' 90)\<lparr>startTime := 28800000, endTime := 34200000,
                                        task_order := 1\<rparr>]"
  by code_simp


section \<open>Current task\<close>

lemma isCurrentAt_closed:
  "isCurrentAt now t \<longleftrightarrow> now \<in> {startTime t .. endTime t} \<and> status t \<noteq> Completed"
  by (auto simp: isCurrentAt_def)

text \<open>
  C3. The claim says a task is current iff \<open>now\<close> lies in the half-open interval
  \<open>[start, end)\<close> and the task is not completed, so that a task whose end equals \<open>now\<close>
  is not current. \<^verbatim>\<open>findCurrentTask\<close> compares with \<^verbatim>\<open>now <= t.endTime\<close>: at
  \<open>now = end\<close> the pending task is still reported as the current one.
\<close>

theorem findCurrentTask_at_end_instant:
  "isCurrentAt 10 (timedTask ''a'' 0 10 Pending) \<and>
   findCurrentTask 10 [timedTask ''a'' 0 10 Pending] = Some ''a''"
  by (simp add: findCurrentTask_def isCurrentAt_def timedTask_def)

section \<open>Editing a previewed schedule\<close>

lemma half_open_overlapsExisting:
  "task_id t \<noteq> task_id task \<Longrightarrow> startTime task < endTime t \<Longrightarrow> startTime t < endTime task \<Longrightarrow>
   overlapsExisting task t"
  unfolding overlapsExisting_def by arith

text \<open>
  C4. For a candidate and a preview whose tasks all satisfy \<open>start < end\<close>, the three-case
  test of \<^verbatim>\<open>handleSaveTask\<close> is true iff some other task of the preview (one with a different
  id) overlaps the candidate in the half-open sense; tasks that only share an endpoint do
  not overlap.
\<close>

theorem overlaps_iff_half_open:
  assumes "startTime task < endTime task"
    and "\<forall>t \<in> set previewed. startTime t < endTime t"
  shows "overlaps task previewed \<longleftrightarrow>
         (\<exists>t \<in> set previewed. task_id t \<noteq> task_id task \<and>
            startTime task < endTime t \<and> startTime t < endTime task)"
proof -
  have "overlapsExisting task t \<longleftrightarrow>
        task_id t \<noteq> task_id task \<and> startTime task < endTime t \<and> startTime t < endTime task"
    if "t \<in> set previewed" for t
  proof -
    from assms(2) that have "startTime t < endTime t" by blast
    with assms(1) show ?thesis unfolding overlapsExisting_def by arith
  qed
  then show ?thesis
    unfolding overlaps_def list_ex_iff by blast
qed

text \<open>
  A task from 09:00 to 10:00 overlaps one from 09:30 to 10:30 and does not overlap one from
  10:00 to 11:00 (minutes since midnight).
\<close>

theorem overlaps_iff_half_open_witness:
  "startTime (timedTask ''a'' 540 600 Pending) < endTime (timedTask ''a'' 540 600 Pending) \<and>
   overlaps (timedTask ''a'' 540 600 Pending) [timedTask ''b'' 570 630 Pending] \<and>
   \<not> overlaps (timedTask ''a'' 540 600 Pending) [timedTask ''c'' 600 660 Pending]"
proof -
  have a: "startTime (timedTask ''a'' 540 600 Pending) < endTime (timedTask ''a'' 540 600 Pending)"
    by (simp add: timedTask_def)
  have b: "\<forall>t \<in> set [timedTask ''b'' 570 630 Pending]. startTime t < endTime t"
    by (simp add: timedTask_def)
  have c: "\<forall>t \<in> set [timedTask ''c'' 600 660 Pending]. startTime t < endTime t"
    by (simp add: timedTask_def)
  from overlaps_iff_half_open[OF a b] overlaps_iff_half_open[OF a c] a show ?thesis
    by (simp add: timedTask_def)
qed

text \<open>
  C5. When the dialog shows a preview that contains a task with the id of the edited task,
  and the edited task overlaps (in the half-open sense) some task of the preview with another
  id, \<^verbatim>\<open>handleSaveTask\<close> raises the alert and leaves the whole component state, the
  previewed list included, as it was.
\<close>

theorem overlapping_edit_rejected:
  assumes "previewedTasks st = Some previewed"
    and "\<exists>t \<in> set previewed. task_id t = task_id task"
    and "\<exists>t \<in> set previewed. task_id t \<noteq> task_id task \<and>
           startTime task < endTime t \<and> startTime t < endTime task"
  shows "handleSaveTask task st = (Some overlapAlert, st)"
proof -
  from assms(3) have "overlaps task previewed"
    unfolding overlaps_def list_ex_iff using half_open_overlapsExisting by blast
  moreover from assms(2) have "list_ex (\<lambda>t. task_id t = task_id task) previewed"
    unfolding list_ex_iff .
  ultimately show ?thesis using assms(1) by (simp add: handleSaveTask_def)
qed

text \<open>
  The preview holds \<open>a\<close> from 08:00 to 09:00 and \<open>b\<close> from 09:30 to 10:30; moving \<open>a\<close> to
  09:00 - 10:00 is rejected.
\<close>

theorem overlapping_edit_rejected_witness:
  "handleSaveTask (timedTask ''a'' 540 600 Pending)
     ((durationSetup 8 8 [])
        \<lparr>previewedTasks := Some [timedTask ''a'' 480 540 Pending, timedTask ''b'' 570 630 Pending]\<rparr>)
   = (Some overlapAlert,
      (durationSetup 8 8 [])
        \<lparr>previewedTasks := Some [timedTask ''a'' 480 540 Pending, timedTask ''b'' 570 630 Pending]\<rparr>)"
proof -
  let ?p = "[timedTask ''a'' 480 540 Pending, timedTask ''b'' 570 630 Pending]"
  let ?st = "(durationSetup 8 8 [])\<lparr>previewedTasks := Some ?p\<rparr>"
  have a: "previewedTasks ?st = Some ?p" by simp
  have b: "\<exists>t \<in> set ?p. task_id t = task_id (timedTask ''a'' 540 600 Pending)"
    by (simp add: timedTask_def)
  have c: "\<exists>t \<in> set ?p. task_id t \<noteq> task_id (timedTask ''a'' 540 600 Pending) \<and>
             startTime (timedTask ''a'' 540 600 Pending) < endTime t \<and>
             startTime t < endTime (timedTask ''a'' 540 600 Pending)"
    by (simp add: timedTask_def)
  from overlapping_edit_rejected[OF a b c] show ?thesis .
qed

section \<open>Toggling and history\<close>

lemma toggle_twice:
  "status task = Pending \<Longrightarrow>
   status (handleStatusChange task) = Completed \<and>
   handleStatusChange (handleStatusChange task) = task"
  by (simp add: handleStatusChange_def)

lemma addCompletedTask_known:
  "list_ex (\<lambda>h. task_id h = task_id task) seen \<Longrightarrow>
   addCompletedTask seen task now hour st = st"
  by (simp add: addCompletedTask_def)

lemma addCompletedTask_new:
  "\<not> list_ex (\<lambda>h. task_id h = task_id task) seen \<Longrightarrow>
   history (addCompletedTask seen task now hour st) = history st @ [completedRecord task now]"
  by (simp add: addCompletedTask_def Let_def split: option.splits)

lemma task_id_completedRecord [simp]: "task_id (completedRecord task now) = task_id task"
  by (simp add: completedRecord_def)

lemma addCompletedTask_records:
  "filter (\<lambda>h. task_id h = k) (history (addCompletedTask seen task now hour st)) =
   filter (\<lambda>h. task_id h = k) (history st)
     @ (if task_id task = k \<and> \<not> list_ex (\<lambda>h. task_id h = k) seen
        then [completedRecord task now] else [])"
proof (cases "list_ex (\<lambda>h. task_id h = task_id task) seen")
  case True
  then show ?thesis by (auto simp: addCompletedTask_known)
next
  case False
  then show ?thesis by (auto simp: addCompletedTask_new)
qed

text \<open>
  When every call is made through a fresh closure, a run of calls leaves one record for an
  id that occurs in it and was not in the history.
\<close>

lemma freshCompletions_records:
  "length (filter (\<lambda>h. task_id h = k) (history (freshCompletions calls st))) =
   (if list_ex (\<lambda>h. task_id h = k) (history st)
    then length (filter (\<lambda>h. task_id h = k) (history st))
    else if list_ex (\<lambda>c. task_id (fst c) = k) calls then 1 else 0)"
proof (induction calls arbitrary: st)
  case Nil
  show ?case by (auto simp: list_ex_iff filter_empty_conv)
next
  case (Cons c calls)
  obtain task now hour where c: "c = (task, now, hour)" by (cases c)
  let ?st = "addCompletedTask (history st) task now hour st"
  have ex: "list_ex (\<lambda>h. task_id h = k) xs \<longleftrightarrow> filter (\<lambda>h. task_id h = k) xs \<noteq> []"
    for xs :: "CompletedTask list"
    by (auto simp: list_ex_iff filter_empty_conv)
  have known: "list_ex (\<lambda>h. task_id h = k) (history ?st) \<longleftrightarrow>
               list_ex (\<lambda>h. task_id h = k) (history st) \<or> task_id task = k"
    by (simp add: ex addCompletedTask_records)
  show ?case
  proof (cases "list_ex (\<lambda>h. task_id h = k) (history st)")
    case True
    with Cons.IH[of ?st] known show ?thesis
      by (simp add: c addCompletedTask_records)
  next
    case False
    then have none: "filter (\<lambda>h. task_id h = k) (history st) = []"
      by (auto simp: list_ex_iff filter_empty_conv)
    with Cons.IH[of ?st] known False show ?thesis
      by (simp add: c addCompletedTask_records)
  qed
qed

text \<open>
  When the calls are made through the closure of one render whose history has no record of
  the id, every call for the id appends a record.
\<close>

lemma staleCompletions_records:
  assumes "\<not> list_ex (\<lambda>h. task_id h = k) seen"
  shows "length (filter (\<lambda>h. task_id h = k) (history (staleCompletions seen calls st))) =
         length (filter (\<lambda>h. task_id h = k) (history st))
           + length (filter (\<lambda>c. task_id (fst c) = k) calls)"
proof (induction calls arbitrary: st)
  case Nil
  show ?case by simp
next
  case (Cons c calls)
  obtain task now hour where c: "c = (task, now, hour)" by (cases c)
  from Cons.IH[of "addCompletedTask seen task now hour st"] assms show ?case
    by (simp add: c addCompletedTask_records)
qed

text \<open>
  C7. The claim says that toggling a pending task twice gives back the task, and that
  completing the same id any number of times leaves exactly one record of it in the history.
  The first half holds (\<open>toggle_twice\<close>). For the second, \<^verbatim>\<open>addCompletedTask\<close> tests the
  history its closure captured at render, not the history it appends to: a task completed
  twice through the closure of one render (here by two clicks on an item that still shows the
  pending task) gets two records.
\<close>

theorem stale_closure_duplicates_history_record:
  "status (timedTask ''a'' 0 10 Pending) = Pending \<and>
   history emptyData = [] \<and>
   map task_id
     (history (staleCompletions (history emptyData)
        [(handleStatusChange (timedTask ''a'' 0 10 Pending), 11, 9),
         (handleStatusChange (timedTask ''a'' 0 10 Pending), 12, 9)]
        emptyData)) = [''a'', ''a''] \<and>
   map task_id
     (history (freshCompletions
        [(handleStatusChange (timedTask ''a'' 0 10 Pending), 11, 9),
         (handleStatusChange (timedTask ''a'' 0 10 Pending), 12, 9)]
        emptyData)) = [''a'']"
  by code_simp

section \<open>Reminder scheduler\<close>

lemma fold_clearTimeout:
  "fold clearTimeout ids st = st\<lparr>timeouts := filter (\<lambda>t. handle t \<notin> set ids) (timeouts st)\<rparr>"
proof (induction ids arbitrary: st)
  case Nil
  show ?case by simp
next
  case (Cons h ids)
  have "filter (\<lambda>t. handle t \<notin> set ids) (filter (\<lambda>t. handle t \<noteq> h) (timeouts st))
        = filter (\<lambda>t. handle t \<notin> set (h # ids)) (timeouts st)"
    by (induction "timeouts st") (auto simp: filter_empty_conv intro: filter_cong)
  with Cons.IH[of "clearTimeout h st"] show ?case by (simp add: clearTimeout_def)
qed

lemma cancel_nextHandle [simp]:
  "nextHandle (cancelTaskNotifications taskId st) = nextHandle st"
  by (simp add: cancelTaskNotifications_def fold_clearTimeout split: option.splits)

lemma cancel_registry:
  "scheduledNotifications (cancelTaskNotifications taskId st)
     = (scheduledNotifications st)(taskId := None)"
  by (auto simp: cancelTaskNotifications_def fold_clearTimeout split: option.splits)

lemma cancel_timeouts_subset:
  "set (timeouts (cancelTaskNotifications taskId st)) \<subseteq> set (timeouts st)"
  by (auto simp: cancelTaskNotifications_def fold_clearTimeout split: option.splits)

lemma cancel_live:
  assumes "tracked taskId st"
  shows "liveTimers taskId (cancelTaskNotifications taskId st) = []"
proof (cases "scheduledNotifications st taskId")
  case None
  with assms have "liveTimers taskId st = []"
    by (cases "liveTimers taskId st") (auto simp: tracked_def)
  with None show ?thesis by (simp add: cancelTaskNotifications_def)
next
  case (Some ids)
  with assms have "\<forall>t \<in> set (timeouts st).
      task_id (callbackTask (callback t)) = taskId \<longrightarrow> handle t \<in> set ids"
    by (auto simp: tracked_def liveTimers_def)
  with Some show ?thesis
    by (auto simp: cancelTaskNotifications_def fold_clearTimeout liveTimers_def filter_empty_conv)
qed

lemma schedule_completed:
  "status task = Completed \<Longrightarrow>
   scheduleTaskNotifications task now st = cancelTaskNotifications (task_id task) st"
  by (simp add: scheduleTaskNotifications_def)

lemma schedule_pending:
  assumes "status task \<noteq> Completed"
  shows "scheduleTaskNotifications task now st =
     (let st0 = cancelTaskNotifications (task_id task) st;
          new = (if startTime task > now
                 then [\<lparr>handle = nextHandle st, delay = startTime task - now,
                         callback = StartCallback task\<rparr>] else [])
              @ (if endTime task > now
                 then [\<lparr>handle = (if startTime task > now then Suc (nextHandle st) else nextHandle st),
                         delay = endTime task - now, callback = EndCallback task\<rparr>] else [])
      in st0\<lparr>timeouts := timeouts st0 @ new,
             nextHandle := nextHandle st + length new,
             scheduledNotifications :=
               (if new = [] then scheduledNotifications st0
                else (scheduledNotifications st0)(task_id task \<mapsto> map handle new))\<rparr>)"
  using assms
  by (simp add: scheduleTaskNotifications_def Let_def setTimeout_def)

lemma schedule_live:
  assumes "tracked (task_id task) st"
  shows "map (\<lambda>t. (delay t, callback t)) (liveTimers (task_id task) (scheduleTaskNotifications task now st)) =
           (if status task = Completed then []
            else (if startTime task > now then [(startTime task - now, StartCallback task)] else [])
               @ (if endTime task > now then [(endTime task - now, EndCallback task)] else []))"
    and "scheduledNotifications (scheduleTaskNotifications task now st) (task_id task) =
           (if liveTimers (task_id task) (scheduleTaskNotifications task now st) = [] then None
            else Some (map handle (liveTimers (task_id task) (scheduleTaskNotifications task now st))))"
proof -
  let ?st0 = "cancelTaskNotifications (task_id task) st"
  from cancel_live[OF assms]
  have none: "filter (\<lambda>t. task_id (callbackTask (callback t)) = task_id task) (timeouts ?st0) = []"
    by (simp add: liveTimers_def)
  have reg: "scheduledNotifications ?st0 (task_id task) = None"
    by (simp add: cancel_registry)
  show "map (\<lambda>t. (delay t, callback t)) (liveTimers (task_id task) (scheduleTaskNotifications task now st)) =
           (if status task = Completed then []
            else (if startTime task > now then [(startTime task - now, StartCallback task)] else [])
               @ (if endTime task > now then [(endTime task - now, EndCallback task)] else []))"
  proof (cases "status task = Completed")
    case True
    with none show ?thesis by (simp add: schedule_completed liveTimers_def)
  next
    case False
    with none show ?thesis
      by (simp add: schedule_pending[OF False] liveTimers_def Let_def)
  qed
  show "scheduledNotifications (scheduleTaskNotifications task now st) (task_id task) =
           (if liveTimers (task_id task) (scheduleTaskNotifications task now st) = [] then None
            else Some (map handle (liveTimers (task_id task) (scheduleTaskNotifications task now st))))"
  proof (cases "status task = Completed")
    case True
    with none reg show ?thesis by (simp add: schedule_completed liveTimers_def)
  next
    case False
    with none reg show ?thesis
      by (simp add: schedule_pending[OF False] liveTimers_def Let_def)
  qed
qed

lemma tracked_after_schedule:
  assumes "tracked (task_id task) st"
  shows "tracked (task_id task) (scheduleTaskNotifications task now st)"
  using schedule_live(2)[OF assms, of now]
  by (auto simp: tracked_def)

lemma tracked_initial: "tracked taskId initialNotificationState"
  by (simp add: tracked_def liveTimers_def initialNotificationState_def)


lemma tracked_cancel:
  assumes "tracked k st"
  shows "tracked k (cancelTaskNotifications taskId st)"
proof (cases "k = taskId")
  case True
  with cancel_live[of taskId st] assms show ?thesis by (simp add: tracked_def)
next
  case False
  have "set (liveTimers k (cancelTaskNotifications taskId st)) \<subseteq> set (liveTimers k st)"
    using cancel_timeouts_subset[of taskId st] by (auto simp: liveTimers_def)
  with assms False show ?thesis
    by (auto simp: tracked_def cancel_registry)
qed

lemma tracked_schedule:
  assumes "tracked k st"
  shows "tracked k (scheduleTaskNotifications task now st)"
proof (cases "k = task_id task")
  case True
  with assms show ?thesis by (simp add: tracked_after_schedule)
next
  case False
  let ?st0 = "cancelTaskNotifications (task_id task) st"
  have t0: "tracked k ?st0" using assms by (rule tracked_cancel)
  show ?thesis
  proof (cases "status task = Completed")
    case True
    with t0 show ?thesis by (simp add: schedule_completed)
  next
    case pending: False
    from t0 False show ?thesis
      by (auto simp: schedule_pending[OF pending] Let_def tracked_def liveTimers_def)
  qed
qed

lemma tracked_fire:
  assumes "tracked k st"
  shows "tracked k (snd (fireTimeout h granted db st))"
  using assms
  by (auto simp: fireTimeout_def clearTimeout_def tracked_def liveTimers_def split: option.splits)

lemma freshHandles_initial: "freshHandles initialNotificationState"
  by (simp add: freshHandles_def initialNotificationState_def)

lemma freshHandles_schedule:
  assumes "freshHandles st"
  shows "freshHandles (scheduleTaskNotifications task now st)"
proof -
  let ?st0 = "cancelTaskNotifications (task_id task) st"
  have old: "\<forall>t \<in> set (timeouts ?st0). handle t < nextHandle st"
    using assms cancel_timeouts_subset[of "task_id task" st] by (auto simp: freshHandles_def)
  show ?thesis
  proof (cases "status task = Completed")
    case True
    with old show ?thesis by (simp add: schedule_completed freshHandles_def)
  next
    case False
    from old show ?thesis
      by (auto simp: schedule_pending[OF False] Let_def freshHandles_def)
  qed
qed

text \<open>
  C6. In a state where the live timeouts of the task are the ones listed under its id,
  arming the task twice in succession (at \<open>now1\<close>, then at \<open>now2\<close>) leaves as its live
  timeouts exactly the ones computed by the second call: a start timer if the start is after
  \<open>now2\<close> and an end timer if the end is after \<open>now2\<close>, none for a completed task. They are
  at most two, and they are the ones listed under the task's id.
\<close>

theorem rearm_keeps_latest_timers:
  assumes "tracked (task_id task) st"
  shows "let st2 = scheduleTaskNotifications task now2 (scheduleTaskNotifications task now1 st);
             live = liveTimers (task_id task) st2
         in map (\<lambda>t. (delay t, callback t)) live =
              (if status task = Completed then []
               else (if startTime task > now2 then [(startTime task - now2, StartCallback task)] else [])
                  @ (if endTime task > now2 then [(endTime task - now2, EndCallback task)] else []))
            \<and> length live \<le> 2
            \<and> scheduledNotifications st2 (task_id task)
                = (if live = [] then None else Some (map handle live))"
proof -
  let ?st1 = "scheduleTaskNotifications task now1 st"
  let ?st2 = "scheduleTaskNotifications task now2 ?st1"
  let ?live = "liveTimers (task_id task) ?st2"
  have t1: "tracked (task_id task) ?st1" using assms by (rule tracked_after_schedule)
  note a = schedule_live(1)[OF t1, of now2] and b = schedule_live(2)[OF t1, of now2]
  have "length (map (\<lambda>t. (delay t, callback t)) ?live) \<le> 2"
    unfolding a by simp
  then have "length ?live \<le> 2" by simp
  with a b show ?thesis by (simp add: Let_def)
qed


theorem rearm_keeps_latest_timers_witness:
  "tracked (task_id (timedTask ''a'' 300000 3900000 Pending)) initialNotificationState \<and>
   map handle (liveTimers ''a''
     (scheduleTaskNotifications (timedTask ''a'' 300000 3900000 Pending) 0
        (scheduleTaskNotifications (timedTask ''a'' 300000 3900000 Pending) 0
           initialNotificationState))) = [3, 4] \<and>
   length (liveTimers ''a''
     (scheduleTaskNotifications (timedTask ''a'' 300000 3900000 Pending) 0
        (scheduleTaskNotifications (timedTask ''a'' 300000 3900000 Pending) 0
           initialNotificationState))) \<le> 2"
proof -
  have t: "tracked (task_id (timedTask ''a'' 300000 3900000 Pending)) initialNotificationState"
    by (rule tracked_initial)
  have i: "task_id (timedTask ''a'' 300000 3900000 Pending) = ''a''"
    by (simp add: timedTask_def)
  have h: "map handle (liveTimers ''a''
     (scheduleTaskNotifications (timedTask ''a'' 300000 3900000 Pending) 0
        (scheduleTaskNotifications (timedTask ''a'' 300000 3900000 Pending) 0
           initialNotificationState))) = [3, 4]"
    by code_simp
  from rearm_keeps_latest_timers[OF t, of 0 0] t h show ?thesis
    by (simp add: Let_def i)
qed

text \<open>
  C10. In a state where the live timeouts of a completed task are the ones listed under its
  id, arming the task leaves no live timeout for its id and no entry under its id, and
  creates no timeout at all.
\<close>

theorem completed_task_disarmed:
  assumes "status task = Completed" and "tracked (task_id task) st"
  shows "liveTimers (task_id task) (scheduleTaskNotifications task now st) = [] \<and>
         scheduledNotifications (scheduleTaskNotifications task now st) (task_id task) = None \<and>
         set (timeouts (scheduleTaskNotifications task now st)) \<subseteq> set (timeouts st)"
  using assms cancel_live[OF assms(2)] cancel_timeouts_subset[of "task_id task" st]
  by (simp add: schedule_completed cancel_registry)


text \<open>A task armed while pending and armed again once completed.\<close>

theorem completed_task_disarmed_witness:
  "status (timedTask ''a'' 300000 3900000 Completed) = Completed \<and>
   tracked (task_id (timedTask ''a'' 300000 3900000 Completed))
     (scheduleTaskNotifications (timedTask ''a'' 300000 3900000 Pending) 0
        initialNotificationState) \<and>
   liveTimers ''a''
     (scheduleTaskNotifications (timedTask ''a'' 300000 3900000 Pending) 0
        initialNotificationState) \<noteq> [] \<and>
   liveTimers ''a''
     (scheduleTaskNotifications (timedTask ''a'' 300000 3900000 Completed) 1
        (scheduleTaskNotifications (timedTask ''a'' 300000 3900000 Pending) 0
           initialNotificationState)) = []"
proof -
  let ?st = "scheduleTaskNotifications (timedTask ''a'' 300000 3900000 Pending) 0
               initialNotificationState"
  have i: "task_id (timedTask ''a'' 300000 3900000 Completed) = ''a''"
    "task_id (timedTask ''a'' 300000 3900000 Pending) = ''a''"
    by (simp_all add: timedTask_def)
  have c: "status (timedTask ''a'' 300000 3900000 Completed) = Completed"
    by (simp add: timedTask_def)
  have "tracked (task_id (timedTask ''a'' 300000 3900000 Pending)) ?st"
    by (rule tracked_after_schedule[OF tracked_initial])
  then have t: "tracked (task_id (timedTask ''a'' 300000 3900000 Completed)) ?st"
    by (simp add: i)
  have l: "liveTimers ''a'' ?st \<noteq> []"
    by code_simp
  from completed_task_disarmed[OF c t, of 1] c t l show ?thesis
    by (simp add: i)
qed

lemma find_fresh_tail:
  assumes "\<forall>t \<in> set xs. handle t \<noteq> h"
  shows "find (\<lambda>t. handle t = h) (xs @ ys) = find (\<lambda>t. handle t = h) ys"
  using assms by (induction xs) auto


text \<open>
  C8. For a task that is not completed when it is armed at \<open>now\<close>, with its end after
  \<open>now\<close>, the last handle listed under the task's id is a live timeout with the delay
  \<open>endTime - now\<close> and the end callback of the task. When that timeout fires, the
  notification shown depends on the status stored in the database \<open>db\<close> at that time, not on
  the status of the task captured at arming time (which is not completed): it is the one
  titled "Task Ended: ..." if the stored task is completed, and the one titled
  "Task Overdue: ..." otherwise (also when the task is no longer stored). \<open>granted\<close> is the
  notification permission, without which nothing is shown.
\<close>

theorem end_timer_rereads_status:
  assumes "freshHandles st" and "status task \<noteq> Completed" and "now < endTime task"
  shows \<open>\<exists>ids. scheduledNotifications (scheduleTaskNotifications task now st) (task_id task) = Some ids \<and>
           find (\<lambda>t. handle t = last ids) (timeouts (scheduleTaskNotifications task now st))
             = Some \<lparr>handle = last ids, delay = endTime task - now, callback = EndCallback task\<rparr> \<and>
           fst (fireTimeout (last ids) granted db (scheduleTaskNotifications task now st)) =
             (if granted
              then [if \<exists>cur. db (task_id task) = Some cur \<and> status cur = Completed
                    then \<lparr>n_title = ''Task Ended: '' @ title task,
                          n_body = ''Time's up for "'' @ title task @ ''". Hope you finished it!'',
                          n_icon = ''/icons/icon-192x192.png'',
                          n_tag = ''task-end-'' @ task_id task\<rparr>
                    else \<lparr>n_title = ''Task Overdue: '' @ title task,
                          n_body = ''Your task "'' @ title task
                                     @ ''" was due. Don't forget to complete it!'',
                          n_icon = ''/icons/icon-192x192.png'',
                          n_tag = ''task-end-'' @ task_id task\<rparr>]
              else [])\<close>
proof -
  let ?st0 = "cancelTaskNotifications (task_id task) st"
  let ?h = "if startTime task > now then Suc (nextHandle st) else nextHandle st"
  have old: "\<forall>t \<in> set (timeouts ?st0). handle t \<noteq> ?h \<and> handle t \<noteq> nextHandle st"
  proof
    fix t assume "t \<in> set (timeouts ?st0)"
    with cancel_timeouts_subset[of "task_id task" st] have "t \<in> set (timeouts st)" by blast
    with assms(1) have "handle t < nextHandle st" by (simp add: freshHandles_def)
    then show "handle t \<noteq> ?h \<and> handle t \<noteq> nextHandle st" by simp
  qed
  have run: \<open>runCallback granted db (EndCallback task) =
             (if granted
              then [if \<exists>cur. db (task_id task) = Some cur \<and> status cur = Completed
                    then \<lparr>n_title = ''Task Ended: '' @ title task,
                          n_body = ''Time's up for "'' @ title task @ ''". Hope you finished it!'',
                          n_icon = ''/icons/icon-192x192.png'',
                          n_tag = ''task-end-'' @ task_id task\<rparr>
                    else \<lparr>n_title = ''Task Overdue: '' @ title task,
                          n_body = ''Your task "'' @ title task
                                     @ ''" was due. Don't forget to complete it!'',
                          n_icon = ''/icons/icon-192x192.png'',
                          n_tag = ''task-end-'' @ task_id task\<rparr>]
              else [])\<close>
    by (cases "db (task_id task)")
      (auto simp: Let_def showNotification_def endedNotification_def overdueNotification_def)
  show ?thesis
  proof (cases "startTime task > now")
    case True
    with assms(2,3) old show ?thesis
      unfolding run[symmetric]
      by (simp add: schedule_pending[OF assms(2)] Let_def fireTimeout_def find_fresh_tail)
  next
    case False
    with assms(2,3) old show ?thesis
      unfolding run[symmetric]
      by (simp add: schedule_pending[OF assms(2)] Let_def fireTimeout_def find_fresh_tail)
  qed
qed

text \<open>
  A pending task is armed with the permission granted. If it is stored as completed when the
  end timer fires, the timer announces the end; if it is stored as pending, or not stored,
  the timer announces an overdue task.
\<close>

theorem end_timer_rereads_status_witness:
  \<open>freshHandles initialNotificationState \<and>
   status (timedTask ''a'' 300000 3900000 Pending) \<noteq> Completed \<and>
   scheduledNotifications
     (scheduleTaskNotifications (timedTask ''a'' 300000 3900000 Pending) 0
        initialNotificationState) ''a'' = Some [1, 2] \<and>
   map n_title
     (fst (fireTimeout 2 True [''a'' \<mapsto> timedTask ''a'' 300000 3900000 Completed]
             (scheduleTaskNotifications (timedTask ''a'' 300000 3900000 Pending) 0
                initialNotificationState)))
     = [''Task Ended: a''] \<and>
   map n_title
     (fst (fireTimeout 2 True [''a'' \<mapsto> timedTask ''a'' 300000 3900000 Pending]
             (scheduleTaskNotifications (timedTask ''a'' 300000 3900000 Pending) 0
                initialNotificationState)))
     = [''Task Overdue: a''] \<and>
   map n_title
     (fst (fireTimeout 2 True Map.empty
             (scheduleTaskNotifications (timedTask ''a'' 300000 3900000 Pending) 0
                initialNotificationState)))
     = [''Task Overdue: a'']\<close>
proof -
  let ?task = "timedTask ''a'' 300000 3900000 Pending"
  have f: "freshHandles initialNotificationState" by (rule freshHandles_initial)
  have s: "status ?task \<noteq> Completed" by (simp add: timedTask_def)
  have e: "0 < endTime ?task" by (simp add: timedTask_def)
  have i: "task_id ?task = ''a''" "title ?task = ''a''" by (simp_all add: timedTask_def)
  have r: "scheduledNotifications (scheduleTaskNotifications ?task 0 initialNotificationState) ''a''
             = Some [1, 2]"
    by code_simp
  from end_timer_rereads_status[OF f s e,
      of True "[''a'' \<mapsto> timedTask ''a'' 300000 3900000 Completed]"]
    end_timer_rereads_status[OF f s e,
      of True "[''a'' \<mapsto> timedTask ''a'' 300000 3900000 Pending]"]
    end_timer_rereads_status[OF f s e, of True Map.empty] r f s
  show ?thesis
    by (simp add: i timedTask_def)
qed

end
